theory Spec2Isabelle
  imports Main
begin

section \<open>Strings of the source language\<close>

text \<open>
  The program is TypeScript. A source string is modelled as a \<open>string\<close> (a list of
  \<open>char\<close>), one \<open>char\<close> per code unit; only the code units below 256 are
  representable. The helpers below are the library operations of the source that the
  modelled functions call, each restricted to that range.
\<close>

definition isDigit :: "char \<Rightarrow> bool" where
  \<comment> \<open>the regular-expression class \<^verbatim>\<open>\d\<close>\<close>
  "isDigit c = (c \<in> set ''0123456789'')"

definition isSpace :: "char \<Rightarrow> bool" where
  \<comment> \<open>the class \<^verbatim>\<open>\s\<close> and the white space of \<^verbatim>\<open>trim\<close>: TAB, LF, VT, FF, CR, SP, NBSP\<close>
  "isSpace c = (c \<in> set [CHR 0x09, CHR 0x0A, CHR 0x0B, CHR 0x0C, CHR 0x0D, CHR 0x20, CHR 0xA0])"

definition startsWith :: "string \<Rightarrow> string \<Rightarrow> bool" where
  \<comment> \<open>\<^verbatim>\<open>s.startsWith(p)\<close>\<close>
  "startsWith s p = (take (length p) s = p)"

definition charAt :: "string \<Rightarrow> nat \<Rightarrow> string" where
  \<comment> \<open>\<^verbatim>\<open>s.charAt(i)\<close>: the empty string out of range\<close>
  "charAt s i = (if i < length s then [s ! i] else [])"

definition trim :: "string \<Rightarrow> string" where
  \<comment> \<open>\<^verbatim>\<open>s.trim()\<close>\<close>
  "trim s = rev (dropWhile isSpace (rev (dropWhile isSpace s)))"

definition toLowerChar :: "char \<Rightarrow> char" where
  \<comment> \<open>A-Z and the upper-case letters of Latin-1 (0xC0-0xDE without 0xD7) move up by 32\<close>
  "toLowerChar c =
     (let n = (of_char c :: nat) in
      if (65 \<le> n \<and> n \<le> 90) \<or> (192 \<le> n \<and> n \<le> 222 \<and> n \<noteq> 215)
      then char_of (n + 32) else c)"

definition toLowerCase :: "string \<Rightarrow> string" where
  "toLowerCase s = map toLowerChar s"

fun joinWith :: "string \<Rightarrow> string list \<Rightarrow> string" where
  \<comment> \<open>\<^verbatim>\<open>parts.join(sep)\<close>\<close>
  "joinWith sep [] = []"
| "joinWith sep [x] = x"
| "joinWith sep (x # y # ys) = x @ sep @ joinWith sep (y # ys)"

definition digitChar :: "nat \<Rightarrow> char" where
  "digitChar d = ''0123456789'' ! d"

function showNat :: "nat \<Rightarrow> string" where
  \<comment> \<open>a non-negative integer in a template literal: its decimal digits\<close>
  "showNat n = (if n < 10 then [digitChar n] else showNat (n div 10) @ [digitChar (n mod 10)])"
  by pat_completeness auto
termination
  by (relation "measure id") auto

declare showNat.simps [simp del]

section \<open>Session records and the number list\<close>

datatype Step = idle | waiting_numbers | confirming_numbers | waiting_messages | confirming_messages

record UserState =
  step :: Step
  numbers :: "string list"
  messages :: "string list"

definition defaultState :: UserState where
  \<comment> \<open>the literal \<^verbatim>\<open>{ step: "idle", numbers: [], messages: [] }\<close>\<close>
  "defaultState = \<lparr> step = idle, numbers = [], messages = [] \<rparr>"

fun addNumbersLoop :: "string list \<Rightarrow> string set \<Rightarrow> nat \<Rightarrow> string list \<Rightarrow> string list \<times> nat" where
  \<comment> \<open>the \<^verbatim>\<open>for (const num of newNumbers)\<close> loop over \<^verbatim>\<open>state.numbers\<close>, \<^verbatim>\<open>existing\<close>, \<^verbatim>\<open>added\<close>\<close>
  "addNumbersLoop nums existing added [] = (nums, added)"
| "addNumbersLoop nums existing added (num # rest) =
     (if num \<notin> existing
      then addNumbersLoop (nums @ [num]) (insert num existing) (Suc added) rest
      else addNumbersLoop nums existing added rest)"

definition addNumbersToState :: "UserState \<Rightarrow> string list \<Rightarrow> UserState \<times> nat" where
  \<comment> \<open>the source mutates \<^verbatim>\<open>state.numbers\<close> and returns \<^verbatim>\<open>added\<close>; the model returns both\<close>
  "addNumbersToState state newNumbers =
     (case addNumbersLoop (numbers state) (set (numbers state)) 0 newNumbers of
        (nums, added) \<Rightarrow> (state\<lparr>numbers := nums\<rparr>, added))"

section \<open>Normalising a number\<close>

definition normalizePeruNumber :: "string \<Rightarrow> string option" where
  \<comment> \<open>src/src/app.ts; \<open>None\<close> is \<^verbatim>\<open>null\<close>\<close>
  "normalizePeruNumber number =
     (let cleaned = filter isDigit number in
      if \<not> (cleaned \<noteq> [] \<and> list_all isDigit cleaned) then None
      else if startsWith cleaned ''9'' \<and> length cleaned = 9 then Some (''51'' @ cleaned)
      else if startsWith cleaned ''51'' \<and> length cleaned = 11 \<and> charAt cleaned 2 = ''9''
      then Some cleaned
      else None)"

definition normalizePeruNumber_lenient :: "string \<Rightarrow> string option" where
  \<comment> \<open>src/unnamed/part_000: only white space, hyphen, parentheses and plus are removed\<close>
  "normalizePeruNumber_lenient number =
     (let cleaned = filter (\<lambda>c. \<not> (isSpace c \<or> c \<in> set ''-()+'')) number in
      if \<not> (cleaned \<noteq> [] \<and> list_all isDigit cleaned) then None
      else if startsWith cleaned ''9'' \<and> length cleaned = 9 then Some (''51'' @ cleaned)
      else if startsWith cleaned ''51'' \<and> length cleaned = 11 then
        (if charAt cleaned 2 = ''9'' then Some cleaned else None)
      else None)"

section \<open>Extracting numbers from a text\<close>

definition isSeparator :: "char \<Rightarrow> bool" where
  \<comment> \<open>the class \<^verbatim>\<open>[\r\n,;]\<close>\<close>
  "isSeparator c = (c \<in> set [CHR 0x0D, CHR 0x0A, CHR '','', CHR '';''])"

function splitSeparators :: "string \<Rightarrow> string list" where
  \<comment> \<open>\<^verbatim>\<open>text.split(/[\r\n,;]+/)\<close>: the fields between maximal runs of separators; a
     separator at either end leaves an empty field there\<close>
  "splitSeparators s =
     (let field = takeWhile (\<lambda>c. \<not> isSeparator c) s;
          rest = dropWhile (\<lambda>c. \<not> isSeparator c) s
      in if rest = [] then [field] else field # splitSeparators (dropWhile isSeparator rest))"
  by pat_completeness auto
termination
proof (relation "measure length")
  fix s field rest
  assume r: "rest = dropWhile (\<lambda>c. \<not> isSeparator c) s" and ne: "rest \<noteq> []"
  from ne obtain c cs where rc: "rest = c # cs" by (cases rest) auto
  with r have "isSeparator c"
    by (metis hd_dropWhile list.sel(1) list.distinct(1))
  then have "length (dropWhile isSeparator rest) \<le> length cs"
    using rc by (simp add: length_dropWhile_le)
  moreover have "length rest \<le> length s"
    using r by (simp add: length_dropWhile_le)
  ultimately show "(dropWhile isSeparator rest, s) \<in> measure length"
    using rc by simp
qed simp

declare splitSeparators.simps [simp del]

text \<open>
  The regular expressions of the source are matched by backtracking. A pattern is
  modelled by the list of the inputs that remain after each way it can match a prefix,
  in the order in which a backtracking matcher tries them (greedy quantifiers take the
  longest repetition first); the match found is the head of that list. The optional
  group of the one pattern used below cannot match the empty string, so that the rule
  of the language that rejects an empty repetition never applies.
\<close>

datatype rx =
    One "char \<Rightarrow> bool"
  | Maybe "char \<Rightarrow> bool"
  | Many "char \<Rightarrow> bool"
  | Between nat nat "char \<Rightarrow> bool"
  | Cat rx rx
  | OptGroup rx

fun manyRests :: "(char \<Rightarrow> bool) \<Rightarrow> string \<Rightarrow> string list" where
  \<comment> \<open>\<^verbatim>\<open>x*\<close>\<close>
  "manyRests p [] = [[]]"
| "manyRests p (c # cs) = (if p c then manyRests p cs @ [c # cs] else [c # cs])"

fun betweenRests :: "(char \<Rightarrow> bool) \<Rightarrow> nat \<Rightarrow> nat \<Rightarrow> string \<Rightarrow> string list" where
  \<comment> \<open>\<^verbatim>\<open>x{lo,hi}\<close>, \<open>lo\<close> and \<open>hi\<close> counting the repetitions still to come\<close>
  "betweenRests p lo 0 s = (if lo = 0 then [s] else [])"
| "betweenRests p lo (Suc hi) [] = (if lo = 0 then [[]] else [])"
| "betweenRests p lo (Suc hi) (c # cs) =
     (if p c then betweenRests p (lo - 1) hi cs else []) @ (if lo = 0 then [c # cs] else [])"

fun rests :: "rx \<Rightarrow> string \<Rightarrow> string list" where
  "rests (One p) s = (case s of [] \<Rightarrow> [] | c # cs \<Rightarrow> if p c then [cs] else [])"
| "rests (Maybe p) s = (case s of [] \<Rightarrow> [] | c # cs \<Rightarrow> if p c then [cs] else []) @ [s]"
| "rests (Many p) s = manyRests p s"
| "rests (Between lo hi p) s = betweenRests p lo hi s"
| "rests (Cat r1 r2) s = concat (map (rests r2) (rests r1 s))"
| "rests (OptGroup r) s = rests r s @ [s]"

function matchGlobal :: "rx \<Rightarrow> string \<Rightarrow> string list" where
  \<comment> \<open>\<^verbatim>\<open>text.match(/.../g) || []\<close>: the matches from left to right, each search starting
     where the last match ended (one code unit later after an empty match)\<close>
  "matchGlobal r s =
     (case rests r s of
        [] \<Rightarrow> (case s of [] \<Rightarrow> [] | c # cs \<Rightarrow> matchGlobal r cs)
      | rest # _ \<Rightarrow>
          (let n = length s - length rest in
           if n = 0 then [] # (case s of [] \<Rightarrow> [] | c # cs \<Rightarrow> matchGlobal r cs)
           else take n s # matchGlobal r (drop n s)))"
  by pat_completeness auto
termination
  by (relation "measure (\<lambda>(r, s). length s)") auto

declare matchGlobal.simps [simp del]

definition numberPattern :: rx where
  \<comment> \<open>\<^verbatim>\<open>/(?:\+?\s*51\s*)?9[\d\s\-().]{8,20}/\<close>\<close>
  "numberPattern =
     Cat (OptGroup
            (Cat (Maybe (\<lambda>c. c = CHR ''+''))
              (Cat (Many isSpace)
                (Cat (One (\<lambda>c. c = CHR ''5''))
                  (Cat (One (\<lambda>c. c = CHR ''1'')) (Many isSpace))))))
         (Cat (One (\<lambda>c. c = CHR ''9''))
              (Between 8 20 (\<lambda>c. isDigit c \<or> isSpace c \<or> c \<in> set ''-().'')))"

fun lineLoop :: "string list \<Rightarrow> string list \<times> string set \<Rightarrow> string list \<times> string set" where
  \<comment> \<open>the first loop of \<^verbatim>\<open>extractNumbers\<close>, on the pair (\<^verbatim>\<open>validNumbers\<close>, \<^verbatim>\<open>seen\<close>)\<close>
  "lineLoop [] acc = acc"
| "lineLoop (line # rest) (validNumbers, seen) =
     (let trimmed = trim line in
      if trimmed = [] then lineLoop rest (validNumbers, seen)
      else (case normalizePeruNumber trimmed of
              None \<Rightarrow> lineLoop rest (validNumbers, seen)
            | Some normalized \<Rightarrow>
                if normalized \<noteq> [] \<and> normalized \<notin> seen
                then lineLoop rest (validNumbers @ [normalized], insert normalized seen)
                else lineLoop rest (validNumbers, seen)))"

fun patternLoop :: "string list \<Rightarrow> string list \<times> string set \<Rightarrow> string list \<times> string set" where
  \<comment> \<open>the second loop of \<^verbatim>\<open>extractNumbers\<close>\<close>
  "patternLoop [] acc = acc"
| "patternLoop (pattern # rest) (validNumbers, seen) =
     (case normalizePeruNumber pattern of
        None \<Rightarrow> patternLoop rest (validNumbers, seen)
      | Some normalized \<Rightarrow>
          if normalized \<noteq> [] \<and> normalized \<notin> seen
          then patternLoop rest (validNumbers @ [normalized], insert normalized seen)
          else patternLoop rest (validNumbers, seen))"

definition extractNumbers :: "string \<Rightarrow> string list" where
  "extractNumbers text =
     (case lineLoop (splitSeparators text) ([], {}) of
        (validNumbers, seen) \<Rightarrow>
          if length validNumbers = 0
          then fst (patternLoop (matchGlobal numberPattern text) (validNumbers, seen))
          else validNumbers)"

section \<open>The bulk dispatch loop\<close>

text \<open>
  The transport is outside the program. It is modelled by a state \<open>'p\<close> of its own and
  by what each of its calls answers in a given state. A call of \<^verbatim>\<open>onWhatsApp\<close> either throws
  or returns \<^verbatim>\<open>undefined\<close> (\<open>None\<close>) or an array; of an entry of the array only
  \<^verbatim>\<open>entry.exists === true\<close> is kept. A call of \<^verbatim>\<open>sendMessage\<close> resolves (\<open>True\<close>) or
  throws (\<open>False\<close>). The pauses between recipients and between messages are not
  modelled. Every call to the transport and to the progress callback is recorded, in
  order, in \<open>calls\<close>.
\<close>

datatype onWhatsAppResult = CheckThrows | CheckReturns "bool list option"

record 'p Provider =
  vendorHasOnWhatsApp :: "'p \<Rightarrow> bool"
  onWhatsApp :: "'p \<Rightarrow> string \<Rightarrow> onWhatsAppResult \<times> 'p"
  sendMessage :: "'p \<Rightarrow> string \<Rightarrow> string \<Rightarrow> bool \<times> 'p"

datatype event =
    OnWhatsAppCall string
  | SendMessageCall string string
  | ProgressCall nat nat

record 'p BulkRun =
  success :: nat
  failed :: nat
  notOnWhatsApp :: nat
  transport :: 'p
  calls :: "event list"

datatype 'p BulkOutcome = Resolved "'p BulkRun" | Rejected "'p BulkRun"

definition checkWhatsApp :: "'p Provider \<Rightarrow> 'p \<Rightarrow> string \<Rightarrow> bool \<times> 'p \<times> event list" where
  \<comment> \<open>the inner \<^verbatim>\<open>try\<close>: the value of \<^verbatim>\<open>hasWhatsApp\<close> after it\<close>
  "checkWhatsApp provider p number =
     (if vendorHasOnWhatsApp provider p then
        (case onWhatsApp provider p number of
           (CheckThrows, p') \<Rightarrow> (True, p', [OnWhatsAppCall number])
         | (CheckReturns result, p') \<Rightarrow>
             (case result of
                Some (entry # _) \<Rightarrow> (entry, p', [OnWhatsAppCall number])
              | _ \<Rightarrow> (True, p', [OnWhatsAppCall number])))
      else (True, p, []))"

fun sendMessages :: "'p Provider \<Rightarrow> string \<Rightarrow> string list \<Rightarrow> 'p \<Rightarrow> bool \<times> 'p \<times> event list" where
  \<comment> \<open>the loop over \<^verbatim>\<open>msgIndex\<close>; \<open>False\<close> when a \<^verbatim>\<open>sendMessage\<close> threw, which leaves the loop\<close>
  "sendMessages provider jid [] p = (True, p, [])"
| "sendMessages provider jid (message # rest) p =
     (case sendMessage provider p jid message of
        (False, p') \<Rightarrow> (False, p', [SendMessageCall jid message])
      | (True, p') \<Rightarrow>
          (case sendMessages provider jid rest p' of
             (ok, p'', evs) \<Rightarrow> (ok, p'', SendMessageCall jid message # evs)))"

definition tryRecipient :: "'p Provider \<Rightarrow> string list \<Rightarrow> string \<Rightarrow> 'p BulkRun \<Rightarrow> 'p BulkRun \<times> bool" where
  \<comment> \<open>the outer \<^verbatim>\<open>try\<close>/\<^verbatim>\<open>catch\<close> of one iteration; the flag is \<open>False\<close> when the iteration
     was left by \<^verbatim>\<open>continue\<close> and \<open>True\<close> when control reached the statement after the
     \<^verbatim>\<open>catch\<close>\<close>
  "tryRecipient provider msgs number run =
     (let jid = number @ ''@s.whatsapp.net'' in
      case checkWhatsApp provider (transport run) number of
        (hasWhatsApp, p1, ev1) \<Rightarrow>
          if \<not> hasWhatsApp
          then (run\<lparr>notOnWhatsApp := notOnWhatsApp run + 1, transport := p1,
                    calls := calls run @ ev1\<rparr>, False)
          else (case sendMessages provider jid msgs p1 of
                  (ok, p2, ev2) \<Rightarrow>
                    if ok
                    then (run\<lparr>success := success run + 1, transport := p2,
                              calls := calls run @ ev1 @ ev2\<rparr>, True)
                    else (run\<lparr>failed := failed run + 1, transport := p2,
                              calls := calls run @ ev1 @ ev2\<rparr>, True)))"

fun bulkLoop ::
  "'p Provider \<Rightarrow> string list \<Rightarrow> (nat \<Rightarrow> nat \<Rightarrow> bool) option \<Rightarrow> nat \<Rightarrow> nat \<Rightarrow> string list
     \<Rightarrow> 'p BulkRun \<Rightarrow> 'p BulkOutcome" where
  \<comment> \<open>the \<^verbatim>\<open>for\<close> loop from \<open>index\<close> on, over the numbers still to come; \<open>len\<close> is
     \<^verbatim>\<open>numbers.length\<close>. The callback, when given, says for its arguments whether it
     returns (\<open>True\<close>) or throws (\<open>False\<close>); a throw is outside every \<^verbatim>\<open>try\<close> and
     rejects the whole call.\<close>
  "bulkLoop provider msgs onProgress len index [] run = Resolved run"
| "bulkLoop provider msgs onProgress len index (number # rest) run =
     (case tryRecipient provider msgs number run of
        (run', False) \<Rightarrow> bulkLoop provider msgs onProgress len (index + 1) rest run'
      | (run', True) \<Rightarrow>
          (case onProgress of
             None \<Rightarrow> bulkLoop provider msgs onProgress len (index + 1) rest run'
           | Some sink \<Rightarrow>
               (let run'' = run'\<lparr>calls := calls run' @ [ProgressCall (index + 1) len]\<rparr> in
                if sink (index + 1) len
                then bulkLoop provider msgs onProgress len (index + 1) rest run''
                else Rejected run'')))"

definition sendBulkWhatsApp ::
  "'p Provider \<Rightarrow> 'p \<Rightarrow> string list \<Rightarrow> string list \<Rightarrow> (nat \<Rightarrow> nat \<Rightarrow> bool) option
     \<Rightarrow> 'p BulkOutcome" where
  "sendBulkWhatsApp provider p nums msgs onProgress =
     bulkLoop provider msgs onProgress (length nums) 0 nums
       \<lparr> success = 0, failed = 0, notOnWhatsApp = 0, transport = p, calls = [] \<rparr>"

section \<open>Sessions and the conversation handlers\<close>

text \<open>
  The two module-level collections \<^verbatim>\<open>userStates\<close> and \<^verbatim>\<open>authenticatedUsers\<close> form
  the store that every handler reads and writes. A handler returns the store it leaves,
  the texts it passed to \<^verbatim>\<open>flowDynamic\<close> in order, and, for the catch-all handler, the
  outcome of \<^verbatim>\<open>sendBulkWhatsApp\<close> when it called it (\<open>None\<close> when it did not).
\<close>

record Store =
  userStates :: "string \<rightharpoonup> UserState"
  authenticatedUsers :: "string set"

definition getState :: "Store \<Rightarrow> string \<Rightarrow> UserState \<times> Store" where
  "getState st sender =
     (case userStates st sender of
        None \<Rightarrow> (defaultState, st\<lparr>userStates := (userStates st)(sender \<mapsto> defaultState)\<rparr>)
      | Some state \<Rightarrow> (state, st))"

definition resetState :: "Store \<Rightarrow> string \<Rightarrow> Store" where
  "resetState st sender = st\<lparr>userStates := (userStates st)(sender \<mapsto> defaultState)\<rparr>"

definition newline :: string where
  "newline = [CHR 0x0A]"

definition cancelNotice :: string where
  "cancelNotice =
     ''*Operacion cancelada.* Sesion cerrada. Escribe la clave para empezar de nuevo.''"

definition cancelFlow :: "Store \<Rightarrow> string \<Rightarrow> Store \<times> string list" where
  \<comment> \<open>the action of \<^verbatim>\<open>cancelFlow\<close> for a message of \<open>sender\<close>\<close>
  "cancelFlow st sender =
     (if sender \<notin> authenticatedUsers st then (st, [])
      else ((resetState st sender)\<lparr>authenticatedUsers := authenticatedUsers st - {sender}\<rparr>,
            [cancelNotice]))"

fun spreadSet :: "string list \<Rightarrow> string list \<Rightarrow> string list" where
  \<comment> \<open>\<^verbatim>\<open>[...new Set(xs)]\<close>: the elements in the order of their first insertion\<close>
  "spreadSet acc [] = acc"
| "spreadSet acc (x # xs) = (if x \<in> set acc then spreadSet acc xs else spreadSet (acc @ [x]) xs)"

record 'p Handled =
  storeAfter :: Store
  replies :: "string list"
  dispatched :: "'p BulkOutcome option"

text \<open>The texts that the catch-all handler passes to \<^verbatim>\<open>flowDynamic\<close>.\<close>

definition accessGrantedReply :: string where
  "accessGrantedReply =
     joinWith newline
       [ ''*Acceso concedido!*'', [], ''Ahora puedes usar el bot.'',
         ''Escribe *spam* para empezar a enviar mensajes.'', [],
         ''Escribe *Cancel* para cerrar sesion.'' ]"

definition noNumbersReply :: string where
  "noNumbersReply = ''No tienes numeros en la lista todavia. Envia numeros primero.''"

definition listConfirmedReply :: "UserState \<Rightarrow> string" where
  "listConfirmedReply state =
     joinWith newline
       [ ''*Lista confirmada!* Total: '' @ showNat (length (numbers state)) @ '' numero(s)'',
         [], ''*Paso 2:* Ahora enviame los mensajes que quieres enviar.'', [],
         ''Puedes enviar varios mensajes. Cada uno se enviara por separado.'',
         ''Cuando termines, escribe exactamente *Enviar* para iniciar el envio.'',
         [], ''Escribe *Cancel* para cancelar.'' ]"

definition noValidNumbersReply :: "UserState \<Rightarrow> string" where
  "noValidNumbersReply state =
     (if step state = confirming_numbers
      then ''No encontre numeros validos. Escribe *Confirmar* si ya terminaste o envia mas numeros.''
      else ''No encontre numeros validos. Formatos: 987654321, 51987654321, +51 987 654 321'')"

definition numbersAddedReply :: "nat \<Rightarrow> UserState \<Rightarrow> string" where
  \<comment> \<open>\<^verbatim>\<open>filter(Boolean)\<close> removes the empty lines before the join\<close>
  "numbersAddedReply added state =
     (let preview = take 10 (numbers state);
          hasMore = (length (numbers state) > 10)
      in joinWith newline (filter (\<lambda>line. line \<noteq> [])
           [ ''*Perfecto!* Se agregaron '' @ showNat added @ '' numero(s) nuevo(s).'',
             [],
             ''*Total actual: '' @ showNat (length (numbers state)) @ '' numero(s)*'',
             [],
             joinWith newline preview,
             (if hasMore then ''... y '' @ showNat (length (numbers state) - 10) @ '' mas'' else []),
             [],
             ''- Envia mas numeros para agregarlos'',
             ''- Escribe *Confirmar* para pasar a los mensajes'',
             ''- Escribe *Cancel* para cancelar'' ]))"

definition noMessagesReply :: string where
  "noMessagesReply = ''No tienes mensajes guardados todavia. Envia al menos un mensaje.''"

definition startingReply :: "UserState \<Rightarrow> string" where
  "startingReply state =
     joinWith newline
       [ ''*Iniciando envio!*'', [],
         ''Destinatarios: '' @ showNat (length (numbers state)),
         ''Mensajes por destinatario: '' @ showNat (length (messages state)),
         [], ''Esto puede tomar un momento...'' ]"

definition completedReply :: "'p BulkRun \<Rightarrow> string" where
  "completedReply result =
     joinWith newline
       [ ''*Envio completado!*'', [], ''*Resultados:*'',
         ''- Enviados: '' @ showNat (success result),
         ''- Fallidos: '' @ showNat (failed result),
         ''- Sin WhatsApp: '' @ showNat (notOnWhatsApp result),
         [], ''Escribe *spam* para enviar mas mensajes.'' ]"

definition queuedReply :: "UserState \<Rightarrow> string" where
  \<comment> \<open>each queued message is shown cut at 50 code units, between double quotes\<close>
  "queuedReply state =
     (let n = showNat (length (messages state)) in
      joinWith newline
        ([ ''*Mensaje '' @ n @ '' guardado!*'', [],
           ''Tienes '' @ n @ '' mensaje(s) en cola:'' ]
         @ map (\<lambda>(i, m). showNat (i + 1) @ ''. '' @ [CHR 0x22] @ take 50 m
                  @ (if length m > 50 then ''...'' else []) @ [CHR 0x22])
             (enumerate 0 (messages state))
         @ [ [], ''- Envia otro mensaje para agregarlo'',
             ''- Escribe exactamente *Enviar* para iniciar el envio'',
             ''- Escribe *Cancel* para cancelar'' ]))"

definition sessionActiveReply :: string where
  "sessionActiveReply =
     joinWith newline
       [ ''*Sesion activa*'', [], ''Comandos disponibles:'',
         ''- *spam* - Enviar mensajes masivos'', ''- *Cancel* - Cerrar sesion'' ]"

definition catchAllFlow ::
  "string \<Rightarrow> 'p Provider \<Rightarrow> 'p \<Rightarrow> Store \<Rightarrow> string \<Rightarrow> string \<Rightarrow> 'p Handled" where
  \<comment> \<open>the action of \<^verbatim>\<open>catchAllFlow\<close> for a text \<open>body\<close> of \<open>sender\<close>; \<open>secretKey\<close> is
     \<^verbatim>\<open>BOT_SECRET_KEY\<close> and \<open>p\<close> the state of the transport. An assignment to a field of
     \<^verbatim>\<open>state\<close> writes the record of \<open>sender\<close> in \<^verbatim>\<open>userStates\<close>, which \<^verbatim>\<open>state\<close> refers to.\<close>
  "catchAllFlow secretKey provider p st0 sender body =
     (case getState st0 sender of (state, st) \<Rightarrow>
      let userMessage = trim body in
      if toLowerCase userMessage \<in> set [''cancel'', ''cancelar''] then
        (if sender \<notin> authenticatedUsers st
         then \<lparr> storeAfter = st, replies = [], dispatched = None \<rparr>
         else \<lparr> storeAfter =
                  (resetState st sender)\<lparr>authenticatedUsers := authenticatedUsers st - {sender}\<rparr>,
                replies = [cancelNotice], dispatched = None \<rparr>)
      else if sender \<notin> authenticatedUsers st then
        (if userMessage = secretKey
         then \<lparr> storeAfter = st\<lparr>authenticatedUsers := insert sender (authenticatedUsers st)\<rparr>,
                replies = [accessGrantedReply], dispatched = None \<rparr>
         else \<lparr> storeAfter = st, replies = [], dispatched = None \<rparr>)
      else if step state = waiting_numbers \<or> step state = confirming_numbers then
        (if toLowerCase userMessage \<in> set [''confirmar'', ''confirm'', ''ok'', ''listo''] then
           (if length (numbers state) = 0
            then \<lparr> storeAfter = st, replies = [noNumbersReply], dispatched = None \<rparr>
            else
              (let state' = state\<lparr>step := waiting_messages, messages := []\<rparr> in
               \<lparr> storeAfter = st\<lparr>userStates := (userStates st)(sender \<mapsto> state')\<rparr>,
                 replies = [listConfirmedReply state'], dispatched = None \<rparr>))
         else
           (let extractedNumbers = extractNumbers userMessage in
            if length extractedNumbers = 0
            then \<lparr> storeAfter = st, replies = [noValidNumbersReply state], dispatched = None \<rparr>
            else
              (case addNumbersToState state extractedNumbers of (state1, added) \<Rightarrow>
               let state' = state1\<lparr>step := confirming_numbers\<rparr> in
               \<lparr> storeAfter = st\<lparr>userStates := (userStates st)(sender \<mapsto> state')\<rparr>,
                 replies = [numbersAddedReply added state'], dispatched = None \<rparr>)))
      else if step state = waiting_messages \<or> step state = confirming_messages then
        (if userMessage = ''Enviar'' then
           (if length (messages state) = 0
            then \<lparr> storeAfter = st, replies = [noMessagesReply], dispatched = None \<rparr>
            else
              (let nums = spreadSet [] (numbers state);
                   msgs = messages state;
                   st' = resetState st sender;
                   outcome = sendBulkWhatsApp provider p nums msgs None
               in case outcome of
                    Resolved result \<Rightarrow>
                      \<lparr> storeAfter = st',
                        replies = [startingReply state, completedReply result],
                        dispatched = Some outcome \<rparr>
                  | Rejected result \<Rightarrow>
                      \<lparr> storeAfter = st', replies = [startingReply state],
                        dispatched = Some outcome \<rparr>))
         else
           (let state' = state\<lparr>messages := messages state @ [userMessage],
                               step := confirming_messages\<rparr>
            in \<lparr> storeAfter = st\<lparr>userStates := (userStates st)(sender \<mapsto> state')\<rparr>,
                 replies = [queuedReply state'], dispatched = None \<rparr>))
      else if step state = idle then
        \<lparr> storeAfter = st, replies = [sessionActiveReply], dispatched = None \<rparr>
      else \<lparr> storeAfter = st, replies = [], dispatched = None \<rparr>)"

section \<open>Concrete transports and stores for the examples\<close>

definition demoProvider :: "unit Provider" where
  \<comment> \<open>a transport with an existence check: 51900000000 is not on WhatsApp, the check
     throws for 51911111111, and every send to 51912345678 throws\<close>
  "demoProvider =
     \<lparr> vendorHasOnWhatsApp = (\<lambda>p. True),
       onWhatsApp = (\<lambda>p number.
         (if number = ''51900000000'' then CheckReturns (Some [False])
          else if number = ''51911111111'' then CheckThrows
          else CheckReturns (Some [True]), p)),
       sendMessage = (\<lambda>p jid message. (jid \<noteq> ''51912345678@s.whatsapp.net'', p)) \<rparr>"



definition emptyStore :: Store where
  "emptyStore = \<lparr> userStates = Map.empty, authenticatedUsers = {} \<rparr>"

definition composingStore :: Store where
  \<comment> \<open>one authorized sender, who has confirmed two numbers and queued no message yet\<close>
  "composingStore =
     \<lparr> userStates = [''51999000111'' \<mapsto>
         \<lparr> step = waiting_messages, numbers = [''51987654321'', ''51912345678''], messages = [] \<rparr>],
       authenticatedUsers = {''51999000111''} \<rparr>"

section \<open>Lists without repetition, in the order of first occurrence\<close>

text \<open>
  \<open>rev (remdups (rev xs))\<close> keeps of every element of \<open>xs\<close> its first occurrence and
  nothing else, in the order of \<open>xs\<close>. The loops of the program that push an element
  unless a set has seen it compute this list.
\<close>

lemma remdups_snoc: "remdups (ys @ [x]) = remdups (filter (\<lambda>y. y \<noteq> x) ys) @ [x]"
  by (induction ys) auto

lemma firstSeen_Cons:
  "rev (remdups (rev (x # xs))) = x # rev (remdups (rev (filter (\<lambda>y. y \<noteq> x) xs)))"
  by (simp add: remdups_snoc rev_filter)

lemma filter_fresh_snoc:
  "filter (\<lambda>y. y \<noteq> x) (filter (\<lambda>y. y \<notin> set acc) xs) = filter (\<lambda>y. y \<notin> set (acc @ [x])) xs"
  by (induction xs) auto

lemma filter_none: "set new \<subseteq> S \<Longrightarrow> filter (\<lambda>x. x \<notin> S) new = []"
  by (induction new) auto

section \<open>Properties of the number normaliser\<close>

lemma stripped_not_digit: "isSpace c \<or> c \<in> set ''-()+'' \<Longrightarrow> \<not> isDigit c"
  by (auto simp: isSpace_def isDigit_def)

lemma lenient_cleaned:
  "list_all isDigit (filter (\<lambda>c. \<not> (isSpace c \<or> c \<in> set ''-()+'')) raw)
   \<Longrightarrow> filter (\<lambda>c. \<not> (isSpace c \<or> c \<in> set ''-()+'')) raw = filter isDigit raw"
proof (induction raw)
  case Nil
  then show ?case by simp
next
  case (Cons c cs)
  then show ?case using stripped_not_digit [of c] by (auto split: if_splits)
qed

lemma startsWith_9: "startsWith ds ''9'' = (ds \<noteq> [] \<and> hd ds = CHR ''9'')"
  by (cases ds) (auto simp: startsWith_def)

lemma startsWith_51: "startsWith ds ''51'' = (take 2 ds = ''51'')"
  by (simp add: startsWith_def numeral_2_eq_2)

lemma charAt_2: "length ds = 11 \<Longrightarrow> (charAt ds 2 = ''9'') = (ds ! 2 = CHR ''9'')"
  by (simp add: charAt_def)

lemma normalize_shape:
  "normalizePeruNumber raw =
     (let ds = filter isDigit raw in
      if length ds = 9 \<and> hd ds = CHR ''9'' then Some (''51'' @ ds)
      else if length ds = 11 \<and> take 2 ds = ''51'' \<and> ds ! 2 = CHR ''9'' then Some ds
      else None)"
proof -
  have a: "list_all isDigit (filter isDigit raw)" by (simp add: list_all_iff)
  have ne: "length (filter isDigit raw) = 9 \<Longrightarrow> filter isDigit raw \<noteq> []"
    and ne': "length (filter isDigit raw) = 11 \<Longrightarrow> filter isDigit raw \<noteq> []" by auto
  show ?thesis
    unfolding normalizePeruNumber_def Let_def startsWith_9 startsWith_51
    using a ne ne' by (auto simp: charAt_2)
qed

lemma lenient_eq:
  "normalizePeruNumber_lenient raw =
     (if list_all isDigit (filter (\<lambda>c. \<not> (isSpace c \<or> c \<in> set ''-()+'')) raw)
      then normalizePeruNumber raw else None)"
proof (cases "list_all isDigit (filter (\<lambda>c. \<not> (isSpace c \<or> c \<in> set ''-()+'')) raw)")
  case True
  note eq = lenient_cleaned [OF True]
  have a: "list_all isDigit (filter isDigit raw)" by (simp add: list_all_iff)
  show ?thesis
    using True unfolding normalizePeruNumber_lenient_def normalizePeruNumber_def Let_def eq
    by (simp add: a)
next
  case False
  then show ?thesis unfolding normalizePeruNumber_lenient_def Let_def by simp
qed

lemma normalize_examples:
  "normalizePeruNumber ''987654321'' = Some ''51987654321''"
  "normalizePeruNumber ''51987654321'' = Some ''51987654321''"
  "normalizePeruNumber ''123456789'' = None"
  by code_simp+

lemma lenient_examples:
  "normalizePeruNumber_lenient ''987654321'' = Some ''51987654321''"
  "normalizePeruNumber_lenient ''51987654321'' = Some ''51987654321''"
  "normalizePeruNumber_lenient ''123456789'' = None"
  by code_simp+

lemma normalize_Some_shape:
  assumes "normalizePeruNumber raw = Some r"
  shows "length r = 11" and "list_all isDigit r" and "take 3 r = ''519''"
proof -
  let ?ds = "filter isDigit raw"
  have a: "list_all isDigit ?ds" by (simp add: list_all_iff)
  have d: "isDigit CHR ''5''" "isDigit CHR ''1''" by (simp_all add: isDigit_def)
  consider (nine) "length ?ds = 9" "hd ?ds = CHR ''9''" "r = ''51'' @ ?ds"
    | (eleven) "length ?ds = 11" "take 2 ?ds = ''51''" "?ds ! 2 = CHR ''9''" "r = ?ds"
    using assms unfolding normalize_shape Let_def by (auto split: if_splits)
  then have "length r = 11 \<and> list_all isDigit r \<and> take 3 r = ''519''"
  proof cases
    case nine
    then obtain c cs where "?ds = c # cs" by (cases ?ds) auto
    with nine a d show ?thesis by simp
  next
    case eleven
    have "take 3 ?ds = take 2 ?ds @ [?ds ! 2]"
      using eleven(1) by (simp add: take_Suc_conv_app_nth numeral_3_eq_3 numeral_2_eq_2)
    with eleven a show ?thesis by simp
  qed
  then show "length r = 11" and "list_all isDigit r" and "take 3 r = ''519''" by simp_all
qed

text \<open>
  C3. \<open>normalizePeruNumber\<close> is a total function of its input. With \<open>ds\<close> the digits of
  the input in their order: when \<open>ds\<close> has exactly 9 digits and starts with 9 the result
  is \<open>''51''\<close> followed by \<open>ds\<close>; when \<open>ds\<close> has exactly 11 digits, starts with 51 and
  has 9 as third digit the result is \<open>ds\<close>; in every other case the result is \<open>None\<close>
  (null). The variant of the second source file, which removes only white space,
  hyphens, parentheses and plus signs, returns null when anything but digits remains
  and agrees with the first otherwise. 987654321 maps to 51987654321, 51987654321 to
  itself and 123456789 to null, under both.
\<close>

theorem normalizePeruNumber_total_shapes:
  "normalizePeruNumber raw =
     (let ds = filter isDigit raw in
      if length ds = 9 \<and> hd ds = CHR ''9'' then Some (''51'' @ ds)
      else if length ds = 11 \<and> take 2 ds = ''51'' \<and> ds ! 2 = CHR ''9'' then Some ds
      else None)
   \<and> normalizePeruNumber_lenient raw =
     (if list_all isDigit (filter (\<lambda>c. \<not> (isSpace c \<or> c \<in> set ''-()+'')) raw)
      then normalizePeruNumber raw else None)
   \<and> normalizePeruNumber ''987654321'' = Some ''51987654321''
   \<and> normalizePeruNumber ''51987654321'' = Some ''51987654321''
   \<and> normalizePeruNumber ''123456789'' = None
   \<and> normalizePeruNumber_lenient ''987654321'' = Some ''51987654321''
   \<and> normalizePeruNumber_lenient ''51987654321'' = Some ''51987654321''
   \<and> normalizePeruNumber_lenient ''123456789'' = None"
  by (intro conjI normalize_shape lenient_eq normalize_examples lenient_examples)

section \<open>Merging numbers into a session\<close>

lemma addNumbersLoop_eq:
  "addNumbersLoop nums (set nums) added new =
     (nums @ rev (remdups (rev (filter (\<lambda>x. x \<notin> set nums) new))),
      added + length (rev (remdups (rev (filter (\<lambda>x. x \<notin> set nums) new)))))"
proof (induction new arbitrary: nums added)
  case Nil
  then show ?case by simp
next
  case (Cons num rest)
  show ?case
  proof (cases "num \<in> set nums")
    case True
    then show ?thesis using Cons.IH [of nums added] by simp
  next
    case False
    have s: "insert num (set nums) = set (nums @ [num])" by simp
    show ?thesis
      using False Cons.IH [of "nums @ [num]" "Suc added"]
      by (simp only: addNumbersLoop.simps s filter.simps firstSeen_Cons filter_fresh_snoc
            if_True if_False not_False_eq_True) simp
  qed
qed

text \<open>
  C9. \<open>addNumbersToState\<close> leaves the numbers already in the session where they are and
  appends, in the order of their first occurrence in the new list, the new numbers that
  the session does not hold yet, each once; the count it returns is the number of
  numbers appended. When every new number is already in the session, the session is
  unchanged, order included, and the count is 0.
\<close>

theorem addNumbersToState_merge:
  "addNumbersToState st new =
     (st\<lparr>numbers := numbers st @ rev (remdups (rev (filter (\<lambda>x. x \<notin> set (numbers st)) new)))\<rparr>,
      length (rev (remdups (rev (filter (\<lambda>x. x \<notin> set (numbers st)) new)))))
   \<and> (set new \<subseteq> set (numbers st) \<longrightarrow> addNumbersToState st new = (st, 0))"
  by (simp add: addNumbersToState_def addNumbersLoop_eq filter_none)

theorem addNumbersToState_merge_witness:
  "set [''51987654321'', ''51987654321'']
     \<subseteq> set (numbers \<lparr> step = confirming_numbers,
                       numbers = [''51912345678'', ''51987654321''], messages = [] \<rparr>)
   \<and> addNumbersToState
       \<lparr> step = confirming_numbers, numbers = [''51912345678'', ''51987654321''], messages = [] \<rparr>
       [''51987654321'', ''51987654321'']
     = (\<lparr> step = confirming_numbers, numbers = [''51912345678'', ''51987654321''],
          messages = [] \<rparr>, 0)"
  using addNumbersToState_merge
    [of "\<lparr> step = confirming_numbers, numbers = [''51912345678'', ''51987654321''],
           messages = [] \<rparr>" "[''51987654321'', ''51987654321'']"]
  by simp

section \<open>Properties of the bulk dispatch loop\<close>












text \<open>
  C2 (evaluation). With a progress callback given, three recipients of which the second
  is reported as not on WhatsApp, and one message: the callback is called after the
  first and after the third recipient, with (1, 3) and (3, 3), and is not called for the
  second, which the loop leaves by \<^verbatim>\<open>continue\<close> before the call.
\<close>

theorem progress_skipped_when_not_on_whatsapp:
  "sendBulkWhatsApp demoProvider () [''51987654321'', ''51900000000'', ''51999999999'']
       [''hola''] (Some (\<lambda>sent len. True))
     = Resolved \<lparr> success = 2, failed = 0, notOnWhatsApp = 1, transport = (),
         calls = [OnWhatsAppCall ''51987654321'',
                  SendMessageCall ''51987654321@s.whatsapp.net'' ''hola'',
                  ProgressCall 1 3,
                  OnWhatsAppCall ''51900000000'',
                  OnWhatsAppCall ''51999999999'',
                  SendMessageCall ''51999999999@s.whatsapp.net'' ''hola'',
                  ProgressCall 3 3] \<rparr>"
  by (simp add: sendBulkWhatsApp_def tryRecipient_def checkWhatsApp_def demoProvider_def Let_def)





section \<open>Properties of the extraction\<close>

lemma map_filter_Cons:
  "List.map_filter f (x # xs) =
     (case f x of None \<Rightarrow> List.map_filter f xs | Some y \<Rightarrow> y # List.map_filter f xs)"
  by (simp add: List.map_filter_def split: option.splits)

lemma map_filter_set: "x \<in> set (List.map_filter f xs) \<Longrightarrow> \<exists>y. f y = Some x"
  by (auto simp: List.map_filter_def)

lemma lineLoop_eq:
  "lineLoop ls (valid, set valid) =
     (valid @ rev (remdups (rev (filter (\<lambda>x. x \<notin> set valid)
         (List.map_filter normalizePeruNumber (filter (\<lambda>l. l \<noteq> []) (map trim ls)))))),
      set (valid @ rev (remdups (rev (filter (\<lambda>x. x \<notin> set valid)
         (List.map_filter normalizePeruNumber (filter (\<lambda>l. l \<noteq> []) (map trim ls))))))))"
proof (induction ls arbitrary: valid)
  case Nil
  then show ?case by (simp add: List.map_filter_def)
next
  case (Cons line rest)
  show ?case
  proof (cases "trim line = []")
    case True
    then show ?thesis using Cons.IH [of valid] by simp
  next
    case False
    show ?thesis
    proof (cases "normalizePeruNumber (trim line)")
      case None
      then show ?thesis using False Cons.IH [of valid] by (simp add: map_filter_Cons)
    next
      case (Some n)
      then have ne: "n \<noteq> []" using normalize_Some_shape(1) [OF Some] by auto
      show ?thesis
      proof (cases "n \<in> set valid")
        case True
        then show ?thesis using Some ne False Cons.IH [of valid] by (simp add: map_filter_Cons)
      next
        case nin: False
        have s: "insert n (set valid) = set (valid @ [n])" by simp
        show ?thesis
          using Some ne False nin Cons.IH [of "valid @ [n]"]
          by (simp only: lineLoop.simps Let_def s map_filter_Cons list.map filter.simps
                firstSeen_Cons filter_fresh_snoc option.case if_True if_False
                not_False_eq_True simp_thms) simp
      qed
    qed
  qed
qed

lemma patternLoop_eq:
  "patternLoop ps (valid, set valid) =
     (valid @ rev (remdups (rev (filter (\<lambda>x. x \<notin> set valid)
         (List.map_filter normalizePeruNumber ps)))),
      set (valid @ rev (remdups (rev (filter (\<lambda>x. x \<notin> set valid)
         (List.map_filter normalizePeruNumber ps))))))"
proof (induction ps arbitrary: valid)
  case Nil
  then show ?case by (simp add: List.map_filter_def)
next
  case (Cons pat rest)
  show ?case
  proof (cases "normalizePeruNumber pat")
    case None
    then show ?thesis using Cons.IH [of valid] by (simp add: map_filter_Cons)
  next
    case (Some n)
    then have ne: "n \<noteq> []" using normalize_Some_shape(1) [OF Some] by auto
    show ?thesis
    proof (cases "n \<in> set valid")
      case True
      then show ?thesis using Some ne Cons.IH [of valid] by (simp add: map_filter_Cons)
    next
      case nin: False
      have s: "insert n (set valid) = set (valid @ [n])" by simp
      show ?thesis
        using Some ne nin Cons.IH [of "valid @ [n]"]
        by (simp only: patternLoop.simps s map_filter_Cons filter.simps
              firstSeen_Cons filter_fresh_snoc option.case if_True if_False
              not_False_eq_True simp_thms) simp
    qed
  qed
qed

lemma extractNumbers_eq:
  "extractNumbers text =
     (let viaLines = rev (remdups (rev (List.map_filter normalizePeruNumber
                        (filter (\<lambda>l. l \<noteq> []) (map trim (splitSeparators text))))))
      in if viaLines \<noteq> [] then viaLines
         else rev (remdups (rev (List.map_filter normalizePeruNumber
                 (matchGlobal numberPattern text)))))"
proof -
  have l: "lineLoop (splitSeparators text) ([], {}) =
     (rev (remdups (rev (List.map_filter normalizePeruNumber
              (filter (\<lambda>l. l \<noteq> []) (map trim (splitSeparators text)))))),
      set (rev (remdups (rev (List.map_filter normalizePeruNumber
              (filter (\<lambda>l. l \<noteq> []) (map trim (splitSeparators text))))))))"
    using lineLoop_eq [of "splitSeparators text" "[]"] by simp
  have p: "fst (patternLoop ps ([], {}))
             = rev (remdups (rev (List.map_filter normalizePeruNumber ps)))" for ps
    using patternLoop_eq [of ps "[]"] by simp
  show ?thesis
    unfolding extractNumbers_def l Let_def
    by (auto simp: p simp del: set_rev set_remdups)
qed

lemma extractNumbers_canonical:
  assumes "n \<in> set (extractNumbers text)"
  shows "length n = 11 \<and> list_all isDigit n \<and> take 3 n = ''519''"
proof -
  from assms have "\<exists>raw. normalizePeruNumber raw = Some n"
    unfolding extractNumbers_eq Let_def by (auto split: if_splits dest: map_filter_set)
  then obtain raw where "normalizePeruNumber raw = Some n" ..
  from normalize_Some_shape [OF this] show ?thesis by simp
qed

lemma extractNumbers_distinct: "distinct (extractNumbers text)"
  unfolding extractNumbers_eq Let_def by simp

lemma extract_examples:
  "extractNumbers (''987654321, 912345678'' @ [CHR 0x0A] @ ''51999999999'')
     = [''51987654321'', ''51912345678'', ''51999999999'']"
  "extractNumbers (''987654321, 912345678'' @ [CHR 0x0A] @ ''51999999999; 912345678,51987654321''
                     @ [CHR 0x0A] @ ''987654321'')
     = [''51987654321'', ''51912345678'', ''51999999999'']"
  "extractNumbers ''llama al +51 987 654 321 o al 912-345-678 ya''
     = [''51987654321'', ''51912345678'']"
  by code_simp+

text \<open>
  C4. \<open>extractNumbers\<close> splits the text at runs of line breaks, commas and semicolons,
  trims the fields, drops the empty ones and normalises each; the result is the list of
  the numbers so obtained, each kept at its first occurrence. Only when that list is
  empty, the matches of the pattern in the text are normalised instead and treated the
  same way. The result therefore has no repetition, and each of its elements has 11
  digits starting with 519. The text "987654321, 912345678", line break, "51999999999"
  gives 51987654321, 51912345678, 51999999999 in that order, also when the numbers
  come again later in the text; a text without a field that is a number falls back to
  the pattern.
\<close>

theorem extractNumbers_first_seen:
  "extractNumbers text =
     (let viaLines = rev (remdups (rev (List.map_filter normalizePeruNumber
                        (filter (\<lambda>l. l \<noteq> []) (map trim (splitSeparators text))))))
      in if viaLines \<noteq> [] then viaLines
         else rev (remdups (rev (List.map_filter normalizePeruNumber
                 (matchGlobal numberPattern text)))))
   \<and> distinct (extractNumbers text)
   \<and> (\<forall>n \<in> set (extractNumbers text).
         length n = 11 \<and> list_all isDigit n \<and> take 3 n = ''519'')
   \<and> extractNumbers (''987654321, 912345678'' @ [CHR 0x0A] @ ''51999999999'')
       = [''51987654321'', ''51912345678'', ''51999999999'']
   \<and> extractNumbers (''987654321, 912345678'' @ [CHR 0x0A] @ ''51999999999; 912345678,51987654321''
                       @ [CHR 0x0A] @ ''987654321'')
       = [''51987654321'', ''51912345678'', ''51999999999'']
   \<and> extractNumbers ''llama al +51 987 654 321 o al 912-345-678 ya''
       = [''51987654321'', ''51912345678'']"
proof (intro conjI ballI)
  show "extractNumbers text =
     (let viaLines = rev (remdups (rev (List.map_filter normalizePeruNumber
                        (filter (\<lambda>l. l \<noteq> []) (map trim (splitSeparators text))))))
      in if viaLines \<noteq> [] then viaLines
         else rev (remdups (rev (List.map_filter normalizePeruNumber
                 (matchGlobal numberPattern text)))))"
    by (rule extractNumbers_eq)
  show "distinct (extractNumbers text)" by (rule extractNumbers_distinct)
  fix n assume n: "n \<in> set (extractNumbers text)"
  from extractNumbers_canonical [OF n]
  show "length n = 11" and "list_all isDigit n" and "take 3 n = ''519''" by simp_all
qed (rule extract_examples)+

theorem extractNumbers_first_seen_witness:
  "''51912345678'' \<in> set (extractNumbers ''llama al +51 987 654 321 o al 912-345-678 ya'')
   \<and> length ''51912345678'' = 11 \<and> list_all isDigit ''51912345678''
   \<and> take 3 ''51912345678'' = ''519''
   \<and> distinct (extractNumbers ''llama al +51 987 654 321 o al 912-345-678 ya'')"
proof -
  note t = extractNumbers_first_seen [of "''llama al +51 987 654 321 o al 912-345-678 ya''"]
  from t have e: "extractNumbers ''llama al +51 987 654 321 o al 912-345-678 ya''
                    = [''51987654321'', ''51912345678'']"
    by (elim conjE)
  then have m: "''51912345678'' \<in> set (extractNumbers ''llama al +51 987 654 321 o al 912-345-678 ya'')"
    by simp
  from t have q: "\<forall>n \<in> set (extractNumbers ''llama al +51 987 654 321 o al 912-345-678 ya'').
         length n = 11 \<and> list_all isDigit n \<and> take 3 n = ''519''"
    by (elim conjE)
  from t have d: "distinct (extractNumbers ''llama al +51 987 654 321 o al 912-345-678 ya'')"
    by (elim conjE)
  from q m d show ?thesis by blast
qed

section \<open>Properties of the conversation handlers\<close>



lemma lower_Enviar: "toLowerCase ''Enviar'' = ''enviar''"
  by code_simp

lemma trim_Enviar: "trim ''Enviar'' = ''Enviar''"
  by code_simp

lemma lower_trim_CANCELAR: "toLowerCase (trim ''CANCELAR'') = ''cancelar''"
  by code_simp

lemma trim_hola_not_secret: "trim ''hola'' \<noteq> ''clave-whatsapp''"
  by code_simp

lemma catchAll_reprompt:
  assumes "sender \<in> authenticatedUsers st"
    and "userStates st sender = Some state"
    and "step state = waiting_messages \<or> step state = confirming_messages"
    and "messages state = []"
    and "trim body = ''Enviar''"
  shows "catchAllFlow secretKey provider p st sender body
           = \<lparr> storeAfter = st, replies = [noMessagesReply], dispatched = None \<rparr>"
  using assms unfolding catchAllFlow_def getState_def
  by (auto simp add: Let_def lower_Enviar)

lemma catchAll_cancel_unauth:
  assumes "sender \<notin> authenticatedUsers st"
    and "toLowerCase (trim body) \<in> set [''cancel'', ''cancelar'']"
  shows "catchAllFlow secretKey provider p st sender body
           = \<lparr> storeAfter =
                 (case userStates st sender of
                    None \<Rightarrow> st\<lparr>userStates := (userStates st)
                              (sender \<mapsto> \<lparr> step = idle, numbers = [], messages = [] \<rparr>)\<rparr>
                  | Some state \<Rightarrow> st),
               replies = [], dispatched = None \<rparr>"
  using assms unfolding catchAllFlow_def getState_def
  by (simp add: Let_def defaultState_def split: option.splits)

lemma catchAll_cancel_auth:
  assumes "sender \<in> authenticatedUsers st"
    and "toLowerCase (trim body) \<in> set [''cancel'', ''cancelar'']"
  shows "catchAllFlow secretKey provider p st sender body
           = \<lparr> storeAfter =
                 st\<lparr>userStates := (userStates st)
                       (sender \<mapsto> \<lparr> step = idle, numbers = [], messages = [] \<rparr>),
                    authenticatedUsers := authenticatedUsers st - {sender}\<rparr>,
               replies = [cancelNotice], dispatched = None \<rparr>"
  using assms unfolding catchAllFlow_def getState_def
  by (simp add: Let_def resetState_def defaultState_def split: option.splits)

lemma catchAll_unauth_silent:
  assumes "sender \<notin> authenticatedUsers st" and "trim body \<noteq> secretKey"
  shows "replies (catchAllFlow secretKey provider p st sender body) = []
       \<and> dispatched (catchAllFlow secretKey provider p st sender body) = None
       \<and> authenticatedUsers (storeAfter (catchAllFlow secretKey provider p st sender body))
           = authenticatedUsers st"
  using assms unfolding catchAllFlow_def getState_def
  by (simp add: Let_def split: option.splits)

lemma catchAll_unseen:
  assumes "userStates st sender = None"
  shows "userStates (storeAfter (catchAllFlow secretKey provider p st sender body))
           = (userStates st)(sender \<mapsto> \<lparr> step = idle, numbers = [], messages = [] \<rparr>)"
  using assms unfolding catchAllFlow_def getState_def
  by (simp add: Let_def resetState_def defaultState_def)

lemma card_dom_new_key:
  "finite (dom m) \<Longrightarrow> m k = None \<Longrightarrow> card (dom (m(k \<mapsto> v))) = card (dom m) + 1"
  by (simp add: domIff)

lemma cancelFlow_unauth: "sender \<notin> authenticatedUsers st \<Longrightarrow> cancelFlow st sender = (st, [])"
  by (simp add: cancelFlow_def)

lemma cancelFlow_auth:
  "sender \<in> authenticatedUsers st \<Longrightarrow>
     cancelFlow st sender =
       (st\<lparr>userStates := (userStates st)(sender \<mapsto> \<lparr> step = idle, numbers = [], messages = [] \<rparr>),
           authenticatedUsers := authenticatedUsers st - {sender}\<rparr>, [cancelNotice])"
  by (simp add: cancelFlow_def resetState_def defaultState_def)

text \<open>
  C7. When an authorized sender whose session is at \<open>waiting_messages\<close> or
  \<open>confirming_messages\<close> and has no message queued sends the text Enviar, the catch-all
  handler answers with the one text that asks for a message first: the store is left as
  it was (step, numbers and messages included) and \<open>sendBulkWhatsApp\<close> is not called.
\<close>

theorem send_trigger_without_messages_reprompts:
  "sender \<in> authenticatedUsers st \<Longrightarrow> userStates st sender = Some state \<Longrightarrow>
   step state = waiting_messages \<or> step state = confirming_messages \<Longrightarrow>
   messages state = [] \<Longrightarrow> trim body = ''Enviar'' \<Longrightarrow>
     catchAllFlow secretKey provider p st sender body
       = \<lparr> storeAfter = st, replies = [noMessagesReply], dispatched = None \<rparr>"
  by (rule catchAll_reprompt)

theorem send_trigger_without_messages_reprompts_witness:
  "''51999000111'' \<in> authenticatedUsers composingStore
   \<and> userStates composingStore ''51999000111''
       = Some \<lparr> step = waiting_messages, numbers = [''51987654321'', ''51912345678''],
                messages = [] \<rparr>
   \<and> trim ''Enviar'' = ''Enviar''
   \<and> catchAllFlow ''clave-whatsapp'' demoProvider () composingStore ''51999000111'' ''Enviar''
       = \<lparr> storeAfter = composingStore, replies = [noMessagesReply], dispatched = None \<rparr>"
  using send_trigger_without_messages_reprompts
    [of "''51999000111''" composingStore
        "\<lparr> step = waiting_messages, numbers = [''51987654321'', ''51912345678''], messages = [] \<rparr>"
        "''Enviar''" "''clave-whatsapp''" demoProvider "()"]
  by (simp add: composingStore_def trim_Enviar)

lemma getState_after_lazy_record:
  "fst (getState
          (case userStates st sender of
             None \<Rightarrow> st\<lparr>userStates := (userStates st)
                       (sender \<mapsto> \<lparr> step = idle, numbers = [], messages = [] \<rparr>)\<rparr>
           | Some state \<Rightarrow> st) k)
     = fst (getState st k)"
  by (cases "userStates st sender"; cases "k = sender"; cases "userStates st k")
     (simp_all add: getState_def defaultState_def)

lemma catchAll_cancel_unauth_observed:
  assumes u: "sender \<notin> authenticatedUsers st"
    and k: "toLowerCase (trim body) \<in> set [''cancel'', ''cancelar'']"
  shows "replies (catchAllFlow secretKey provider p st sender body) = []"
    and "dispatched (catchAllFlow secretKey provider p st sender body) = None"
    and "authenticatedUsers (storeAfter (catchAllFlow secretKey provider p st sender body))
           = authenticatedUsers st"
    and "fst (getState (storeAfter (catchAllFlow secretKey provider p st sender body)) key)
           = fst (getState st key)"
proof -
  note c = catchAll_cancel_unauth [where provider = provider and p = p, OF u k]
  show "replies (catchAllFlow secretKey provider p st sender body) = []"
    and "dispatched (catchAllFlow secretKey provider p st sender body) = None"
    unfolding c by simp_all
  show "authenticatedUsers (storeAfter (catchAllFlow secretKey provider p st sender body))
           = authenticatedUsers st"
    unfolding c by (simp split: option.splits)
  show "fst (getState (storeAfter (catchAllFlow secretKey provider p st sender body)) key)
           = fst (getState st key)"
    unfolding c by (simp only: Handled.simps getState_after_lazy_record)
qed

text \<open>
  C8. The state of a session is the record that \<open>getState\<close> returns for its key, which
  is \<open>{idle, [], []}\<close> for a key without an entry in the session map. A cancellation
  from a sender that is not authorized produces no reply and changes no state: the set
  of authorized senders stays as it was, and so does the state of every session, under
  \<open>cancelFlow\<close> (which leaves the whole store untouched) and under the catch-all
  handler. A cancellation from an authorized sender sets the sender's record to
  \<open>{idle, [], []}\<close>, removes the sender from the set of authorized senders and answers
  with the cancellation notice, in both handlers.
\<close>

theorem cancellation_noop_or_reset:
  "(sender \<notin> authenticatedUsers st \<longrightarrow>
      cancelFlow st sender = (st, [])
    \<and> (toLowerCase (trim body) \<in> set [''cancel'', ''cancelar''] \<longrightarrow>
         replies (catchAllFlow secretKey provider p st sender body) = []
       \<and> dispatched (catchAllFlow secretKey provider p st sender body) = None
       \<and> authenticatedUsers (storeAfter (catchAllFlow secretKey provider p st sender body))
           = authenticatedUsers st
       \<and> (\<forall>key. fst (getState (storeAfter (catchAllFlow secretKey provider p st sender body)) key)
                  = fst (getState st key))))
   \<and> (sender \<in> authenticatedUsers st \<longrightarrow>
      cancelFlow st sender =
        (st\<lparr>userStates := (userStates st)(sender \<mapsto> \<lparr> step = idle, numbers = [], messages = [] \<rparr>),
            authenticatedUsers := authenticatedUsers st - {sender}\<rparr>, [cancelNotice])
    \<and> (toLowerCase (trim body) \<in> set [''cancel'', ''cancelar''] \<longrightarrow>
         catchAllFlow secretKey provider p st sender body
           = \<lparr> storeAfter =
                 st\<lparr>userStates := (userStates st)
                       (sender \<mapsto> \<lparr> step = idle, numbers = [], messages = [] \<rparr>),
                    authenticatedUsers := authenticatedUsers st - {sender}\<rparr>,
               replies = [cancelNotice], dispatched = None \<rparr>))"
proof (intro conjI impI allI)
  assume u: "sender \<notin> authenticatedUsers st"
  show "cancelFlow st sender = (st, [])" by (rule cancelFlow_unauth [OF u])
next
  assume u: "sender \<notin> authenticatedUsers st"
    and k: "toLowerCase (trim body) \<in> set [''cancel'', ''cancelar'']"
  show "replies (catchAllFlow secretKey provider p st sender body) = []"
    by (rule catchAll_cancel_unauth_observed(1) [OF u k])
next
  assume u: "sender \<notin> authenticatedUsers st"
    and k: "toLowerCase (trim body) \<in> set [''cancel'', ''cancelar'']"
  show "dispatched (catchAllFlow secretKey provider p st sender body) = None"
    by (rule catchAll_cancel_unauth_observed(2) [OF u k])
next
  assume u: "sender \<notin> authenticatedUsers st"
    and k: "toLowerCase (trim body) \<in> set [''cancel'', ''cancelar'']"
  show "authenticatedUsers (storeAfter (catchAllFlow secretKey provider p st sender body))
           = authenticatedUsers st"
    by (rule catchAll_cancel_unauth_observed(3) [OF u k])
next
  fix key
  assume u: "sender \<notin> authenticatedUsers st"
    and k: "toLowerCase (trim body) \<in> set [''cancel'', ''cancelar'']"
  show "fst (getState (storeAfter (catchAllFlow secretKey provider p st sender body)) key)
          = fst (getState st key)"
    by (rule catchAll_cancel_unauth_observed(4) [OF u k])
next
  assume a: "sender \<in> authenticatedUsers st"
  show "cancelFlow st sender =
        (st\<lparr>userStates := (userStates st)(sender \<mapsto> \<lparr> step = idle, numbers = [], messages = [] \<rparr>),
            authenticatedUsers := authenticatedUsers st - {sender}\<rparr>, [cancelNotice])"
    by (rule cancelFlow_auth [OF a])
next
  assume a: "sender \<in> authenticatedUsers st"
    and k: "toLowerCase (trim body) \<in> set [''cancel'', ''cancelar'']"
  show "catchAllFlow secretKey provider p st sender body
           = \<lparr> storeAfter =
                 st\<lparr>userStates := (userStates st)
                       (sender \<mapsto> \<lparr> step = idle, numbers = [], messages = [] \<rparr>),
                    authenticatedUsers := authenticatedUsers st - {sender}\<rparr>,
               replies = [cancelNotice], dispatched = None \<rparr>"
    by (rule catchAll_cancel_auth [OF a k])
qed

theorem cancellation_noop_or_reset_witness:
  "''51999000111'' \<notin> authenticatedUsers emptyStore
   \<and> toLowerCase (trim ''CANCELAR'') \<in> set [''cancel'', ''cancelar'']
   \<and> cancelFlow emptyStore ''51999000111'' = (emptyStore, [])
   \<and> replies (catchAllFlow ''clave-whatsapp'' demoProvider () emptyStore ''51999000111''
                 ''CANCELAR'') = []
   \<and> authenticatedUsers (storeAfter (catchAllFlow ''clave-whatsapp'' demoProvider () emptyStore
                 ''51999000111'' ''CANCELAR'')) = authenticatedUsers emptyStore
   \<and> fst (getState (storeAfter (catchAllFlow ''clave-whatsapp'' demoProvider () emptyStore
                 ''51999000111'' ''CANCELAR'')) ''51999000111'')
       = fst (getState emptyStore ''51999000111'')
   \<and> ''51999000111'' \<in> authenticatedUsers composingStore
   \<and> cancelFlow composingStore ''51999000111''
       = (\<lparr> userStates = [''51999000111'' \<mapsto> \<lparr> step = idle, numbers = [], messages = [] \<rparr>],
            authenticatedUsers = {} \<rparr>, [cancelNotice])
   \<and> catchAllFlow ''clave-whatsapp'' demoProvider () composingStore ''51999000111'' ''CANCELAR''
       = \<lparr> storeAfter =
             \<lparr> userStates = [''51999000111'' \<mapsto> \<lparr> step = idle, numbers = [], messages = [] \<rparr>],
               authenticatedUsers = {} \<rparr>,
           replies = [cancelNotice], dispatched = None \<rparr>"
proof -
  have k: "toLowerCase (trim ''CANCELAR'') \<in> set [''cancel'', ''cancelar'']"
    by (simp add: lower_trim_CANCELAR)
  have u: "''51999000111'' \<notin> authenticatedUsers emptyStore" by (simp add: emptyStore_def)
  have a: "''51999000111'' \<in> authenticatedUsers composingStore" by (simp add: composingStore_def)
  note t1 = cancellation_noop_or_reset
         [of "''51999000111''" emptyStore "''CANCELAR''" "''clave-whatsapp''" demoProvider "()"]
  from t1 u have c1: "cancelFlow emptyStore ''51999000111'' = (emptyStore, [])" by blast
  from t1 u k
  have r: "replies (catchAllFlow ''clave-whatsapp'' demoProvider () emptyStore ''51999000111''
                 ''CANCELAR'') = []"
    by blast
  from t1 u k
  have au: "authenticatedUsers (storeAfter (catchAllFlow ''clave-whatsapp'' demoProvider ()
                 emptyStore ''51999000111'' ''CANCELAR'')) = authenticatedUsers emptyStore"
    by blast
  from t1 u k
  have g: "fst (getState (storeAfter (catchAllFlow ''clave-whatsapp'' demoProvider () emptyStore
                 ''51999000111'' ''CANCELAR'')) ''51999000111'')
       = fst (getState emptyStore ''51999000111'')"
    by blast
  from cancellation_noop_or_reset
         [of "''51999000111''" composingStore "''CANCELAR''" "''clave-whatsapp''" demoProvider "()"]
       a k
  have c2: "cancelFlow composingStore ''51999000111''
       = (\<lparr> userStates = [''51999000111'' \<mapsto> \<lparr> step = idle, numbers = [], messages = [] \<rparr>],
            authenticatedUsers = {} \<rparr>, [cancelNotice])"
    and c3: "catchAllFlow ''clave-whatsapp'' demoProvider () composingStore ''51999000111'' ''CANCELAR''
       = \<lparr> storeAfter =
             \<lparr> userStates = [''51999000111'' \<mapsto> \<lparr> step = idle, numbers = [], messages = [] \<rparr>],
               authenticatedUsers = {} \<rparr>,
           replies = [cancelNotice], dispatched = None \<rparr>"
    by (simp_all add: composingStore_def lower_trim_CANCELAR)
  from u k c1 r au g a c2 c3 show ?thesis by (intro conjI)
qed

text \<open>
  C10 (as stated, at a concrete input). A cancellation that \<open>cancelFlow\<close> handles for a
  sender that is not authorized and has no session record: the handler returns before
  it looks at the sessions, and the sender still has no record afterwards.
\<close>

theorem cancelFlow_adds_no_record_counterexample:
  "''51999000111'' \<notin> authenticatedUsers emptyStore
   \<and> userStates emptyStore ''51999000111'' = None
   \<and> cancelFlow emptyStore ''51999000111'' = (emptyStore, [])
   \<and> userStates (fst (cancelFlow emptyStore ''51999000111'')) ''51999000111'' = None"
  by (simp add: cancelFlow_def emptyStore_def)

text \<open>
  C10 (amended). Every text that the catch-all handler handles for a sender without a
  session record leaves the session map as it was plus the record \<open>{idle, [], []}\<close> for
  that sender, so that a finite map has one entry more. This includes the texts of a
  sender that is not authorized and does not send the secret key, a cancellation
  among them, for which the handler sends no reply, calls no dispatch and leaves the set
  of authorized senders as it was. The keyword handler \<open>cancelFlow\<close>, by contrast,
  leaves the whole store as it was for a sender that is not authorized.
\<close>

theorem catchAll_creates_session_record:
  "(userStates st sender = None \<longrightarrow>
      userStates (storeAfter (catchAllFlow secretKey provider p st sender body))
        = (userStates st)(sender \<mapsto> \<lparr> step = idle, numbers = [], messages = [] \<rparr>)
    \<and> (finite (dom (userStates st)) \<longrightarrow>
         card (dom (userStates (storeAfter (catchAllFlow secretKey provider p st sender body))))
           = card (dom (userStates st)) + 1))
   \<and> (sender \<notin> authenticatedUsers st \<and> trim body \<noteq> secretKey \<longrightarrow>
        replies (catchAllFlow secretKey provider p st sender body) = []
      \<and> dispatched (catchAllFlow secretKey provider p st sender body) = None
      \<and> authenticatedUsers (storeAfter (catchAllFlow secretKey provider p st sender body))
          = authenticatedUsers st)
   \<and> (sender \<notin> authenticatedUsers st \<longrightarrow> cancelFlow st sender = (st, []))"
proof (intro conjI impI)
  assume n: "userStates st sender = None"
  show "userStates (storeAfter (catchAllFlow secretKey provider p st sender body))
        = (userStates st)(sender \<mapsto> \<lparr> step = idle, numbers = [], messages = [] \<rparr>)"
    by (rule catchAll_unseen [OF n])
  assume "finite (dom (userStates st))"
  then show "card (dom (userStates (storeAfter (catchAllFlow secretKey provider p st sender body))))
           = card (dom (userStates st)) + 1"
    unfolding catchAll_unseen [OF n] using n by (rule card_dom_new_key)
next
  assume h: "sender \<notin> authenticatedUsers st \<and> trim body \<noteq> secretKey"
  then have u: "sender \<notin> authenticatedUsers st" and b: "trim body \<noteq> secretKey" by simp_all
  from catchAll_unauth_silent [where provider = provider and p = p, OF u b]
  show "replies (catchAllFlow secretKey provider p st sender body) = []"
    and "dispatched (catchAllFlow secretKey provider p st sender body) = None"
    and "authenticatedUsers (storeAfter (catchAllFlow secretKey provider p st sender body))
          = authenticatedUsers st" by simp_all
next
  assume "sender \<notin> authenticatedUsers st"
  then show "cancelFlow st sender = (st, [])" by (rule cancelFlow_unauth)
qed

theorem catchAll_creates_session_record_witness:
  "userStates emptyStore ''51999000111'' = None
   \<and> finite (dom (userStates emptyStore))
   \<and> ''51999000111'' \<notin> authenticatedUsers emptyStore
   \<and> trim ''hola'' \<noteq> ''clave-whatsapp''
   \<and> userStates (storeAfter (catchAllFlow ''clave-whatsapp'' demoProvider () emptyStore
                                ''51999000111'' ''hola''))
       = [''51999000111'' \<mapsto> \<lparr> step = idle, numbers = [], messages = [] \<rparr>]
   \<and> card (dom (userStates (storeAfter (catchAllFlow ''clave-whatsapp'' demoProvider () emptyStore
                                ''51999000111'' ''hola'')))) = 1
   \<and> replies (catchAllFlow ''clave-whatsapp'' demoProvider () emptyStore ''51999000111'' ''hola'')
       = []
   \<and> cancelFlow emptyStore ''51999000111'' = (emptyStore, [])"
proof -
  have n: "userStates emptyStore ''51999000111'' = None"
    and f: "finite (dom (userStates emptyStore))"
    and u: "''51999000111'' \<notin> authenticatedUsers emptyStore"
    and e: "userStates emptyStore = Map.empty"
    by (simp_all add: emptyStore_def)
  note b = trim_hola_not_secret
  note t = catchAll_creates_session_record
             [of emptyStore "''51999000111''" "''clave-whatsapp''" demoProvider "()" "''hola''"]
  from t n have r: "userStates (storeAfter (catchAllFlow ''clave-whatsapp'' demoProvider () emptyStore
                                ''51999000111'' ''hola''))
       = [''51999000111'' \<mapsto> \<lparr> step = idle, numbers = [], messages = [] \<rparr>]"
    by (simp add: e)
  from t n f have c: "card (dom (userStates (storeAfter (catchAllFlow ''clave-whatsapp''
                        demoProvider () emptyStore ''51999000111'' ''hola'')))) = 1"
    by (simp add: e)
  from t u b have s: "replies (catchAllFlow ''clave-whatsapp'' demoProvider () emptyStore
                        ''51999000111'' ''hola'') = []"
    by blast
  from t u have k: "cancelFlow emptyStore ''51999000111'' = (emptyStore, [])" by blast
  from n f u b r c s k show ?thesis by (intro conjI)
qed

end
